theory Spec2Isabelle
  imports Main "HOL-Library.Sublist"
begin

section \<open>gotex: rendering a LaTeX document by driving an external compiler\<close>

text \<open>
  The package has three functions, all in \<^verbatim>\<open>main.go\<close>: \<^verbatim>\<open>Render\<close> (the
  orchestrating loop), \<^verbatim>\<open>runLatex\<close> (one compiler invocation) and \<^verbatim>\<open>needsRerun\<close>
  (the scan of the log file). Everything they do besides computing is a call into Go's
  standard library that acts on the outside world: creating a temporary directory,
  starting a subprocess and waiting for it, opening and reading files, removing a
  directory. The model threads a world state of an arbitrary type \<open>'w\<close> through these
  calls; what each call does to the world and what it returns is a parameter (the record
  \<open>sys\<close>), so every theorem holds for every behaviour of the file system and of the
  compiler. The calls are taken to return: a subprocess that never exits blocks the Go
  code in \<^verbatim>\<open>cmd.Wait\<close> and is outside the model.
\<close>

subsection \<open>Data\<close>

text \<open>
  A Go \<^verbatim>\<open>error\<close> value. \<open>ErrorString s\<close> is what \<^verbatim>\<open>errors.New(s)\<close> returns;
  \<open>SysError s\<close> is an error made by the packages \<^verbatim>\<open>os\<close>, \<^verbatim>\<open>os/exec\<close> and
  \<^verbatim>\<open>io/ioutil\<close> (a path error, an exit error, ...), with its detail \<open>s\<close>.
\<close>

datatype error = SysError string | ErrorString string

definition errors_New :: "string \<Rightarrow> error" where
  "errors_New s = ErrorString s"

text \<open>\<^verbatim>\<open>type Options struct { Command string; Runs int }\<close>\<close>

record Options =
  Command :: string
  Runs :: int

text \<open>
  The fields of \<^verbatim>\<open>exec.Cmd\<close> that the package sets. \<open>Args\<close> holds the command name
  first, as Go's does; \<open>Stdin = None\<close> is Go's nil reader.
\<close>

record Cmd =
  Path :: string
  Args :: "string list"
  Dir :: string
  Stdin :: "string option"

definition exec_Command :: "string \<Rightarrow> string list \<Rightarrow> Cmd" where
  "exec_Command name arg = \<lparr>Path = name, Args = name # arg, Dir = [], Stdin = None\<rparr>"

definition strings_NewReader :: "string \<Rightarrow> string option" where
  "strings_NewReader s = Some s"

subsection \<open>The calls into the outside world\<close>

text \<open>
  One field for each library call of the source. Each takes the world and returns its
  result with the world it leaves. \<open>os_Open\<close> returns, for a file that opens, the bytes
  that reading it delivers (up to the end of the file or a read error; the scanner treats
  both alike).
\<close>

record 'w sys =
  ioutil_TempDir :: "string \<Rightarrow> string \<Rightarrow> 'w \<Rightarrow> (error + string) \<times> 'w"
  cmd_Start :: "Cmd \<Rightarrow> 'w \<Rightarrow> error option \<times> 'w"
  cmd_Wait :: "Cmd \<Rightarrow> 'w \<Rightarrow> error option \<times> 'w"
  os_Open :: "string \<Rightarrow> 'w \<Rightarrow> (error + string) \<times> 'w"
  file_Close :: "string \<Rightarrow> 'w \<Rightarrow> 'w"
  ioutil_ReadFile :: "string \<Rightarrow> 'w \<Rightarrow> (error + string) \<times> 'w"
  os_RemoveAll :: "string \<Rightarrow> 'w \<Rightarrow> error option \<times> 'w"

subsection \<open>Library functions that compute\<close>

text \<open>
  \<^verbatim>\<open>path.Join\<close>: the non-empty elements joined by slashes, then cleaned
  (\<^verbatim>\<open>path.Clean\<close>: no empty and no \<^verbatim>\<open>.\<close> element, an inner \<^verbatim>\<open>..\<close> removed
  with the element before it, a \<^verbatim>\<open>..\<close> at the root dropped, the empty path written
  \<^verbatim>\<open>.\<close>).
\<close>

fun split_slash :: "string \<Rightarrow> string list" where
  "split_slash [] = [[]]"
| "split_slash (c # cs) =
     (if c = CHR ''/'' then [] # split_slash cs
      else (case split_slash cs of [] \<Rightarrow> [[c]] | e # es \<Rightarrow> (c # e) # es))"

fun clean_elems :: "bool \<Rightarrow> string list \<Rightarrow> string list \<Rightarrow> string list" where
  "clean_elems rooted [] out = rev out"
| "clean_elems rooted (e # es) out =
     (if e = [] \<or> e = ''.'' then clean_elems rooted es out
      else if e = ''..'' then
        (case out of
           [] \<Rightarrow> if rooted then clean_elems rooted es [] else clean_elems rooted es [''..'']
         | e' # below \<Rightarrow>
             if e' = ''..'' then clean_elems rooted es (''..'' # out)
             else clean_elems rooted es below)
      else clean_elems rooted es (e # out))"

fun join_slash :: "string list \<Rightarrow> string" where
  "join_slash [] = []"
| "join_slash [e] = e"
| "join_slash (e # es) = e @ ''/'' @ join_slash es"

definition path_Clean :: "string \<Rightarrow> string" where
  "path_Clean p =
     (case p of
        [] \<Rightarrow> ''.''
      | c # _ \<Rightarrow>
          (let rooted = (c = CHR ''/'');
               body = join_slash (clean_elems rooted (split_slash p) [])
           in if rooted then CHR ''/'' # body
              else if body = [] then ''.'' else body))"

definition path_Join :: "string list \<Rightarrow> string" where
  "path_Join elem =
     (let buf = join_slash (filter (\<lambda>e. e \<noteq> []) elem)
      in if buf = [] then [] else path_Clean buf)"

text \<open>\<^verbatim>\<open>strings.Contains(s, substr)\<close>: \<open>substr\<close> occurs in \<open>s\<close> as a contiguous run.\<close>

definition strings_Contains :: "string \<Rightarrow> string \<Rightarrow> bool" where
  "strings_Contains s substr = sublist substr s"

text \<open>
  \<^verbatim>\<open>bufio.Scanner\<close> with its default split function \<^verbatim>\<open>ScanLines\<close> and its default
  buffer. \<open>Scanner_tokens s\<close> is the list of the texts that the successive calls of
  \<^verbatim>\<open>Scan\<close> deliver on the input \<open>s\<close>, up to the call that returns false. A token is
  a line without its newline and without one trailing carriage return; a last line
  without newline is a token; the empty input has none. The scanner's buffer grows to
  \<^verbatim>\<open>MaxScanTokenSize\<close> bytes and no further: when that many bytes from the start of a
  line hold no newline, \<^verbatim>\<open>Scan\<close> returns false (\<^verbatim>\<open>ErrTooLong\<close>) and scanning has
  ended.
\<close>

definition MaxScanTokenSize :: int where
  "MaxScanTokenSize = 64 * 1024"

definition dropCR :: "string \<Rightarrow> string" where
  "dropCR l = (if l \<noteq> [] \<and> last l = CHR 0x0D then butlast l else l)"

definition is_newline :: "char \<Rightarrow> bool" where
  "is_newline c = (c = CHR 0x0A)"

function Scanner_tokens :: "string \<Rightarrow> string list" where
  "Scanner_tokens s =
     (if s = [] then []
      else (let l = takeWhile (\<lambda>c. \<not> is_newline c) s
            in if MaxScanTokenSize \<le> int (length l) then []
               else dropCR l # Scanner_tokens (drop (Suc (length l)) s)))"
  by pat_completeness auto
termination
  by (relation "measure length") auto

declare Scanner_tokens.simps [simp del]

subsection \<open>The package\<close>

text \<open>
  \<^verbatim>\<open>runLatex\<close>: prepare the command, start it, wait for it. A start error is returned
  as it is; an error of \<^verbatim>\<open>Wait\<close> is replaced by a message naming the log file.
\<close>

definition runLatex :: "'w sys \<Rightarrow> string \<Rightarrow> Options \<Rightarrow> string \<Rightarrow> 'w \<Rightarrow> error option \<times> 'w" where
  "runLatex sy document options dir w =
     (let args = [''-jobname=gotex'', ''-halt-on-error''];
          cmd = (exec_Command (Command options) args)
                  \<lparr>Dir := dir, Stdin := strings_NewReader document\<rparr>
      in case cmd_Start sy cmd w of
           (Some err, w1) \<Rightarrow> (Some err, w1)
         | (None, w1) \<Rightarrow>
             (case cmd_Wait sy cmd w1 of
                (Some err, w2) \<Rightarrow>
                  (Some (errors_New (''LaTeX error. Check '' @ path_Join [dir, ''gotex.log''])), w2)
              | (None, w2) \<Rightarrow> (None, w2)))"

text \<open>The loop of \<^verbatim>\<open>needsRerun\<close> over the scanner's tokens.\<close>

fun scan_for_marker :: "string list \<Rightarrow> bool" where
  "scan_for_marker [] = False"
| "scan_for_marker (text # rest) =
     (if strings_Contains text ''Rerun to get'' then True else scan_for_marker rest)"

text \<open>
  \<^verbatim>\<open>needsRerun\<close>: false when the log does not open; otherwise the scan, and the
  deferred \<^verbatim>\<open>file.Close()\<close> on the way out.
\<close>

definition needsRerun :: "'w sys \<Rightarrow> string \<Rightarrow> 'w \<Rightarrow> bool \<times> 'w" where
  "needsRerun sy dir w =
     (case os_Open sy (path_Join [dir, ''gotex.log'']) w of
        (Inl err, w1) \<Rightarrow> (False, w1)
      | (Inr file, w1) \<Rightarrow>
          (scan_for_marker (Scanner_tokens file),
           file_Close sy (path_Join [dir, ''gotex.log'']) w1))"

text \<open>
  The loop of \<^verbatim>\<open>Render\<close>:
  \<^verbatim>\<open>for rerun := true; rerun && runs < maxRuns; runs++ { ... }\<close>.
  The result is the error that made the loop return, if any.
\<close>

function render_loop ::
  "'w sys \<Rightarrow> string \<Rightarrow> Options \<Rightarrow> string \<Rightarrow> int \<Rightarrow> bool \<Rightarrow> int \<Rightarrow> 'w \<Rightarrow> error option \<times> 'w" where
  "render_loop sy document options dir maxRuns rerun runs w =
     (if rerun \<and> runs < maxRuns then
        (case runLatex sy document options dir w of
           (Some err, w1) \<Rightarrow> (Some err, w1)
         | (None, w1) \<Rightarrow>
             (if Runs options = 0 then
                (case needsRerun sy dir w1 of
                   (rerun', w2) \<Rightarrow>
                     render_loop sy document options dir maxRuns rerun' (runs + 1) w2)
              else render_loop sy document options dir maxRuns rerun (runs + 1) w1))
      else (None, w))"
  by pat_completeness auto
termination
  by (relation "measure (\<lambda>(sy, document, options, dir, maxRuns, rerun, runs, w).
        nat (maxRuns - runs))") auto

declare render_loop.simps [simp del]

text \<open>\<^verbatim>\<open>Render\<close>. The result is \<open>Inl err\<close> for Go's \<^verbatim>\<open>(nil, err)\<close> and \<open>Inr output\<close>
  for \<^verbatim>\<open>(output, nil)\<close>.\<close>

definition Render :: "'w sys \<Rightarrow> string \<Rightarrow> Options \<Rightarrow> 'w \<Rightarrow> (error + string) \<times> 'w" where
  "Render sy document options0 w =
     (let options = (if Command options0 = [] then options0\<lparr>Command := ''pdflatex''\<rparr>
                     else options0)
      in case ioutil_TempDir sy [] ''gotex-'' w of
           (Inl err, w1) \<Rightarrow> (Inl err, w1)
         | (Inr dir, w1) \<Rightarrow>
             (let maxRuns = (if Runs options > 0 then Runs options else 5)
              in case render_loop sy document options dir maxRuns True 0 w1 of
                   (Some err, w2) \<Rightarrow> (Inl err, w2)
                 | (None, w2) \<Rightarrow>
                     (case ioutil_ReadFile sy (path_Join [dir, ''gotex.pdf'']) w2 of
                        (Inl err, w3) \<Rightarrow> (Inl err, w3)
                      | (Inr output, w3) \<Rightarrow>
                          (case os_RemoveAll sy dir w3 of
                             (_, w4) \<Rightarrow> (Inr output, w4)))))"


subsection \<open>Observing a run\<close>

text \<open>
  What a call of \<^verbatim>\<open>Render\<close> does to the outside world is the sequence of library
  calls it makes. \<open>traced sy\<close> is the system \<open>sy\<close> with a recorder: the world is paired
  with the list of the calls made so far, each with what it returned. The model of the
  package is not touched; \<open>render_trace\<close> is the record of one call of \<^verbatim>\<open>Render\<close>.
\<close>

datatype event =
    EvTempDir string string "error + string"
  | EvStart Cmd "error option"
  | EvWait Cmd "error option"
  | EvOpen string "error + string"
  | EvClose string
  | EvReadFile string "error + string"
  | EvRemoveAll string "error option"

definition traced :: "'w sys \<Rightarrow> ('w \<times> event list) sys" where
  "traced sy =
     \<lparr>ioutil_TempDir = (\<lambda>d p s. case ioutil_TempDir sy d p (fst s) of
          (r, w') \<Rightarrow> (r, (w', snd s @ [EvTempDir d p r]))),
      cmd_Start = (\<lambda>c s. case cmd_Start sy c (fst s) of
          (r, w') \<Rightarrow> (r, (w', snd s @ [EvStart c r]))),
      cmd_Wait = (\<lambda>c s. case cmd_Wait sy c (fst s) of
          (r, w') \<Rightarrow> (r, (w', snd s @ [EvWait c r]))),
      os_Open = (\<lambda>p s. case os_Open sy p (fst s) of
          (r, w') \<Rightarrow> (r, (w', snd s @ [EvOpen p r]))),
      file_Close = (\<lambda>p s. (file_Close sy p (fst s), snd s @ [EvClose p])),
      ioutil_ReadFile = (\<lambda>p s. case ioutil_ReadFile sy p (fst s) of
          (r, w') \<Rightarrow> (r, (w', snd s @ [EvReadFile p r]))),
      os_RemoveAll = (\<lambda>p s. case os_RemoveAll sy p (fst s) of
          (r, w') \<Rightarrow> (r, (w', snd s @ [EvRemoveAll p r])))\<rparr>"

definition render_trace :: "'w sys \<Rightarrow> string \<Rightarrow> Options \<Rightarrow> 'w \<Rightarrow> event list" where
  "render_trace sy document options w = snd (snd (Render (traced sy) document options (w, [])))"

text \<open>
  One compiler invocation is one call of \<^verbatim>\<open>cmd.Start\<close> (\<^verbatim>\<open>runLatex\<close> makes exactly
  one); the rerun detector is consulted once for each \<^verbatim>\<open>os.Open\<close> (the only call
  that opens a file, made by \<^verbatim>\<open>needsRerun\<close> first thing).
\<close>

primrec is_invocation :: "event \<Rightarrow> bool" where
  "is_invocation (EvTempDir d p r) = False"
| "is_invocation (EvStart c r) = True"
| "is_invocation (EvWait c r) = False"
| "is_invocation (EvOpen p r) = False"
| "is_invocation (EvClose p) = False"
| "is_invocation (EvReadFile p r) = False"
| "is_invocation (EvRemoveAll p r) = False"

primrec is_consultation :: "event \<Rightarrow> bool" where
  "is_consultation (EvTempDir d p r) = False"
| "is_consultation (EvStart c r) = False"
| "is_consultation (EvWait c r) = False"
| "is_consultation (EvOpen p r) = True"
| "is_consultation (EvClose p) = False"
| "is_consultation (EvReadFile p r) = False"
| "is_consultation (EvRemoveAll p r) = False"

primrec is_removal :: "event \<Rightarrow> bool" where
  "is_removal (EvTempDir d p r) = False"
| "is_removal (EvStart c r) = False"
| "is_removal (EvWait c r) = False"
| "is_removal (EvOpen p r) = False"
| "is_removal (EvClose p) = False"
| "is_removal (EvReadFile p r) = False"
| "is_removal (EvRemoveAll p r) = True"

primrec is_artifact_read :: "event \<Rightarrow> bool" where
  "is_artifact_read (EvTempDir d p r) = False"
| "is_artifact_read (EvStart c r) = False"
| "is_artifact_read (EvWait c r) = False"
| "is_artifact_read (EvOpen p r) = False"
| "is_artifact_read (EvClose p) = False"
| "is_artifact_read (EvReadFile p r) = True"
| "is_artifact_read (EvRemoveAll p r) = False"

text \<open>An invocation fails when the process does not start or \<^verbatim>\<open>Wait\<close> reports an error.\<close>

primrec invocation_failed :: "event \<Rightarrow> bool" where
  "invocation_failed (EvTempDir d p r) = False"
| "invocation_failed (EvStart c r) = (r \<noteq> None)"
| "invocation_failed (EvWait c r) = (r \<noteq> None)"
| "invocation_failed (EvOpen p r) = False"
| "invocation_failed (EvClose p) = False"
| "invocation_failed (EvReadFile p r) = False"
| "invocation_failed (EvRemoveAll p r) = False"

definition invocations :: "event list \<Rightarrow> nat" where
  "invocations tr = length (filter is_invocation tr)"

definition consultations :: "event list \<Rightarrow> nat" where
  "consultations tr = length (filter is_consultation tr)"

definition removals :: "event list \<Rightarrow> nat" where
  "removals tr = length (filter is_removal tr)"

definition artifact_reads :: "event list \<Rightarrow> nat" where
  "artifact_reads tr = length (filter is_artifact_read tr)"

text \<open>
  The detector's answer, as a function of what \<^verbatim>\<open>os.Open\<close> returned to it, and the
  answers given after the passes of a run: \<open>pass_answers tr\<close> has one entry for each
  invocation, \<open>Some b\<close> when the invocation succeeded and the detector was then asked
  and answered \<open>b\<close>, \<open>None\<close> when it was not asked.
\<close>

definition log_says_rerun :: "error + string \<Rightarrow> bool" where
  "log_says_rerun r =
     (case r of Inl err \<Rightarrow> False | Inr file \<Rightarrow> scan_for_marker (Scanner_tokens file))"

fun answer_after :: "event list \<Rightarrow> bool option" where
  "answer_after (EvWait c None # EvOpen p r # es) = Some (log_says_rerun r)"
| "answer_after es = None"

primrec pass_answers :: "event list \<Rightarrow> bool option list" where
  "pass_answers [] = []"
| "pass_answers (e # es) =
     (if is_invocation e then answer_after es # pass_answers es else pass_answers es)"

text \<open>
  The command that \<^verbatim>\<open>runLatex\<close> builds from the options (after \<^verbatim>\<open>Render\<close> has
  set the default command), the document and the directory.
\<close>

definition the_cmd :: "string \<Rightarrow> Options \<Rightarrow> string \<Rightarrow> Cmd" where
  "the_cmd document options dir =
     \<lparr>Path = Command options,
      Args = [Command options, ''-jobname=gotex'', ''-halt-on-error''],
      Dir = dir, Stdin = Some document\<rparr>"

definition with_defaults :: "Options \<Rightarrow> Options" where
  "with_defaults options =
     (if Command options = [] then options\<lparr>Command := ''pdflatex''\<rparr> else options)"

text \<open>
  The events of each function of the package as a function of the system and the world
  it starts in. These are what the recorder writes (lemmas \<open>runLatex_traced\<close> to
  \<open>Render_traced\<close> below); the proofs work on them.
\<close>

definition runLatex_events :: "'w sys \<Rightarrow> string \<Rightarrow> Options \<Rightarrow> string \<Rightarrow> 'w \<Rightarrow> event list" where
  "runLatex_events sy document options dir w =
     (let cmd = the_cmd document options dir
      in case cmd_Start sy cmd w of
           (Some err, w1) \<Rightarrow> [EvStart cmd (Some err)]
         | (None, w1) \<Rightarrow> [EvStart cmd None, EvWait cmd (fst (cmd_Wait sy cmd w1))])"

definition needsRerun_events :: "'w sys \<Rightarrow> string \<Rightarrow> 'w \<Rightarrow> event list" where
  "needsRerun_events sy dir w =
     (let name = path_Join [dir, ''gotex.log'']
      in case os_Open sy name w of
           (Inl err, w1) \<Rightarrow> [EvOpen name (Inl err)]
         | (Inr file, w1) \<Rightarrow> [EvOpen name (Inr file), EvClose name])"

function loop_events ::
  "'w sys \<Rightarrow> string \<Rightarrow> Options \<Rightarrow> string \<Rightarrow> int \<Rightarrow> bool \<Rightarrow> int \<Rightarrow> 'w \<Rightarrow> event list" where
  "loop_events sy document options dir maxRuns rerun runs w =
     (if rerun \<and> runs < maxRuns then
        runLatex_events sy document options dir w @
        (case runLatex sy document options dir w of
           (Some err, w1) \<Rightarrow> []
         | (None, w1) \<Rightarrow>
             (if Runs options = 0 then
                needsRerun_events sy dir w1 @
                (case needsRerun sy dir w1 of
                   (rerun', w2) \<Rightarrow>
                     loop_events sy document options dir maxRuns rerun' (runs + 1) w2)
              else loop_events sy document options dir maxRuns rerun (runs + 1) w1))
      else [])"
  by pat_completeness auto
termination
  by (relation "measure (\<lambda>(sy, document, options, dir, maxRuns, rerun, runs, w).
        nat (maxRuns - runs))") auto

declare loop_events.simps [simp del]

definition max_runs :: "Options \<Rightarrow> int" where
  "max_runs options = (if Runs options > 0 then Runs options else 5)"

definition Render_events :: "'w sys \<Rightarrow> string \<Rightarrow> Options \<Rightarrow> 'w \<Rightarrow> event list" where
  "Render_events sy document options w =
     EvTempDir [] ''gotex-'' (fst (ioutil_TempDir sy [] ''gotex-'' w)) #
     (case ioutil_TempDir sy [] ''gotex-'' w of
        (Inl err, w1) \<Rightarrow> []
      | (Inr dir, w1) \<Rightarrow>
          loop_events sy document (with_defaults options) dir (max_runs options) True 0 w1 @
          (case render_loop sy document (with_defaults options) dir (max_runs options) True 0 w1 of
             (Some err, w2) \<Rightarrow> []
           | (None, w2) \<Rightarrow>
               EvReadFile (path_Join [dir, ''gotex.pdf''])
                 (fst (ioutil_ReadFile sy (path_Join [dir, ''gotex.pdf'']) w2)) #
               (case ioutil_ReadFile sy (path_Join [dir, ''gotex.pdf'']) w2 of
                  (Inl err, w3) \<Rightarrow> []
                | (Inr output, w3) \<Rightarrow> [EvRemoveAll dir (fst (os_RemoveAll sy dir w3))])))"

text \<open>The events that the loop can produce, for a given command and log file name.\<close>

primrec loop_event :: "Cmd \<Rightarrow> string \<Rightarrow> event \<Rightarrow> bool" where
  "loop_event cmd name (EvTempDir d p r) = False"
| "loop_event cmd name (EvStart c r) = (c = cmd)"
| "loop_event cmd name (EvWait c r) = (c = cmd)"
| "loop_event cmd name (EvOpen p r) = (p = name)"
| "loop_event cmd name (EvClose p) = (p = name)"
| "loop_event cmd name (EvReadFile p r) = False"
| "loop_event cmd name (EvRemoveAll p r) = False"


subsection \<open>A simulated system\<close>

text \<open>
  A small file system and a scripted compiler, for running the model on concrete inputs.
  \<open>script\<close> lists what the compiler does on its successive invocations: whether it
  starts, whether it exits with status 0, the log it writes and the PDF it writes, if any.
\<close>

record run =
  starts :: bool
  exit_ok :: bool
  writes_log :: string
  writes_pdf :: "string option"

record world =
  tmpdir_ok :: bool
  script :: "run list"
  started :: "run option"
  files :: "(string \<times> string) list"
  dirs :: "string list"
  removable :: bool

definition write_file :: "string \<Rightarrow> string \<Rightarrow> (string \<times> string) list \<Rightarrow> (string \<times> string) list" where
  "write_file name text fs = (name, text) # filter (\<lambda>f. fst f \<noteq> name) fs"

definition read_file :: "string \<Rightarrow> world \<Rightarrow> (error + string) \<times> world" where
  "read_file name w =
     (case map_of (files w) name of
        None \<Rightarrow> (Inl (SysError (''open '' @ name @ '': no such file or directory'')), w)
      | Some text \<Rightarrow> (Inr text, w))"

definition sim :: "world sys" where
  "sim =
     \<lparr>ioutil_TempDir = (\<lambda>d p w.
        if tmpdir_ok w
        then (Inr (''/tmp/'' @ p @ ''042''), w\<lparr>dirs := (''/tmp/'' @ p @ ''042'') # dirs w\<rparr>)
        else (Inl (SysError ''mkdir /tmp/gotex-042: permission denied''), w)),
      cmd_Start = (\<lambda>c w.
        case script w of
          [] \<Rightarrow> (Some (SysError ''exec: no more runs''), w)
        | r # rs \<Rightarrow>
            if starts r then (None, w\<lparr>script := rs, started := Some r\<rparr>)
            else (Some (SysError (''exec: '' @ Path c @ '': executable file not found in $PATH'')),
                  w\<lparr>script := rs\<rparr>)),
      cmd_Wait = (\<lambda>c w.
        case started w of
          None \<Rightarrow> (Some (SysError ''exec: not started''), w)
        | Some r \<Rightarrow>
            (if exit_ok r then None else Some (SysError ''exit status 1''),
             w\<lparr>started := None,
               files := (case writes_pdf r of
                           None \<Rightarrow> write_file (Dir c @ ''/gotex.log'') (writes_log r) (files w)
                         | Some pdf \<Rightarrow>
                             write_file (Dir c @ ''/gotex.pdf'') pdf
                               (write_file (Dir c @ ''/gotex.log'') (writes_log r) (files w)))\<rparr>)),
      os_Open = read_file,
      file_Close = (\<lambda>name w. w),
      ioutil_ReadFile = read_file,
      os_RemoveAll = (\<lambda>name w.
        if removable w
        then (None, w\<lparr>dirs := removeAll name (dirs w),
                       files := filter (\<lambda>f. \<not> prefix (name @ ''/'') (fst f)) (files w)\<rparr>)
        else (Some (SysError (''unlinkat '' @ name @ '': permission denied'')), w))\<rparr>"

definition good_run :: "string \<Rightarrow> run" where
  "good_run text = \<lparr>starts = True, exit_ok = True, writes_log = text, writes_pdf = Some ''%PDF-1.5''\<rparr>"

definition bad_run :: run where
  "bad_run = \<lparr>starts = True, exit_ok = False, writes_log = ''! Undefined control sequence.'', writes_pdf = None\<rparr>"

definition world0 :: "run list \<Rightarrow> world" where
  "world0 rs = \<lparr>tmpdir_ok = True, script = rs, started = None, files = [], dirs = [''/tmp''], removable = True\<rparr>"

definition rerun_log :: string where
  "rerun_log = ''LaTeX Warning: Label(s) may have changed. Rerun to get cross-references right.''"

definition quiet_log :: string where
  "quiet_log = ''Output written on gotex.pdf (1 page).''"

definition auto_options :: Options where
  "auto_options = \<lparr>Command = [], Runs = 0\<rparr>"

text \<open>Options and a compiler run used in the examples.\<close>

definition three_runs :: Options where
  "three_runs = \<lparr>Command = [], Runs = 3\<rparr>"

definition negative_runs :: Options where
  "negative_runs = \<lparr>Command = [], Runs = - 1\<rparr>"

definition no_start :: run where
  "no_start = \<lparr>starts = False, exit_ok = False, writes_log = [], writes_pdf = None\<rparr>"

subsection \<open>The lines of a log, as the specification speaks of them\<close>

text \<open>
  Not from the source: the lines of a text are its maximal runs without a newline, and a
  newline at the very end does not start another line. \<open>some_line_has_marker\<close> is the
  specification's condition, that some line of the log contains the marker.
  \<open>scanned_lines\<close> are the lines before the first line of \<^verbatim>\<open>MaxScanTokenSize\<close>
  bytes or more.
\<close>

fun log_lines :: "string \<Rightarrow> string list" where
  "log_lines [] = []"
| "log_lines (c # cs) =
     (if is_newline c then [] # log_lines cs
      else (case log_lines cs of [] \<Rightarrow> [[c]] | l # ls \<Rightarrow> (c # l) # ls))"

definition some_line_has_marker :: "string \<Rightarrow> bool" where
  "some_line_has_marker file = list_ex (\<lambda>l. strings_Contains l ''Rerun to get'') (log_lines file)"

definition scanned_lines :: "string \<Rightarrow> string list" where
  "scanned_lines file = takeWhile (\<lambda>l. int (length l) < MaxScanTokenSize) (log_lines file)"

text \<open>A log whose first line is 65536 bytes long and whose second line is the marker.\<close>

definition long_line :: string where
  "long_line = replicate 65536 (CHR ''x'')"

definition long_line_log :: string where
  "long_line_log = long_line @ [CHR 0x0A] @ ''Rerun to get''"

section \<open>The recorder is faithful\<close>

lemma the_cmd_built:
  "the_cmd document options dir =
     (exec_Command (Command options) [''-jobname=gotex'', ''-halt-on-error''])
       \<lparr>Dir := dir, Stdin := strings_NewReader document\<rparr>"
  by (simp add: the_cmd_def exec_Command_def strings_NewReader_def)

lemma runLatex_traced:
  "runLatex (traced sy) document options dir (w, tr) =
     (fst (runLatex sy document options dir w),
      (snd (runLatex sy document options dir w),
       tr @ runLatex_events sy document options dir w))"
  by (simp add: runLatex_def runLatex_events_def traced_def the_cmd_def exec_Command_def
      strings_NewReader_def Let_def split: prod.splits option.splits)

lemma needsRerun_traced:
  "needsRerun (traced sy) dir (w, tr) =
     (fst (needsRerun sy dir w),
      (snd (needsRerun sy dir w), tr @ needsRerun_events sy dir w))"
  by (simp add: needsRerun_def needsRerun_events_def traced_def Let_def
      split: prod.splits sum.splits)

lemma render_loop_stop:
  "\<not> (rerun \<and> runs < maxRuns) \<Longrightarrow>
   render_loop sy document options dir maxRuns rerun runs w = (None, w)"
  by (subst render_loop.simps) auto

lemma render_loop_step:
  "rerun \<Longrightarrow> runs < maxRuns \<Longrightarrow>
   render_loop sy document options dir maxRuns rerun runs w =
     (case runLatex sy document options dir w of
        (Some err, w1) \<Rightarrow> (Some err, w1)
      | (None, w1) \<Rightarrow>
          (if Runs options = 0 then
             (case needsRerun sy dir w1 of
                (rerun', w2) \<Rightarrow>
                  render_loop sy document options dir maxRuns rerun' (runs + 1) w2)
           else render_loop sy document options dir maxRuns rerun (runs + 1) w1))"
  by (subst render_loop.simps) simp

lemma loop_events_stop:
  "\<not> (rerun \<and> runs < maxRuns) \<Longrightarrow>
   loop_events sy document options dir maxRuns rerun runs w = []"
  by (subst loop_events.simps) auto

lemma loop_events_step:
  "rerun \<Longrightarrow> runs < maxRuns \<Longrightarrow>
   loop_events sy document options dir maxRuns rerun runs w =
     runLatex_events sy document options dir w @
     (case runLatex sy document options dir w of
        (Some err, w1) \<Rightarrow> []
      | (None, w1) \<Rightarrow>
          (if Runs options = 0 then
             needsRerun_events sy dir w1 @
             (case needsRerun sy dir w1 of
                (rerun', w2) \<Rightarrow>
                  loop_events sy document options dir maxRuns rerun' (runs + 1) w2)
           else loop_events sy document options dir maxRuns rerun (runs + 1) w1))"
  by (subst loop_events.simps) simp

lemma render_loop_traced:
  "render_loop (traced sy) document options dir maxRuns rerun runs (w, tr) =
     (fst (render_loop sy document options dir maxRuns rerun runs w),
      (snd (render_loop sy document options dir maxRuns rerun runs w),
       tr @ loop_events sy document options dir maxRuns rerun runs w))"
proof (induction sy document options dir maxRuns rerun runs w arbitrary: tr
       rule: render_loop.induct)
  case (1 sy document options dir maxRuns rerun runs w)
  show ?case
  proof (cases "rerun \<and> runs < maxRuns")
    case False
    then show ?thesis
      by (simp add: render_loop_stop loop_events_stop)
  next
    case True
    obtain e w1 where rl: "runLatex sy document options dir w = (e, w1)"
      by (cases "runLatex sy document options dir w")
    show ?thesis
    proof (cases e)
      case (Some err)
      with True rl show ?thesis
        by (simp add: render_loop_step loop_events_step runLatex_traced)
    next
      case None
      show ?thesis
      proof (cases "Runs options = 0")
        case auto: True
        obtain r' w2 where nr: "needsRerun sy dir w1 = (r', w2)"
          by (cases "needsRerun sy dir w1")
        from True rl None auto nr "1.IH"(1) [OF True rl [symmetric] None auto nr [symmetric]]
        show ?thesis
          by (simp add: render_loop_step loop_events_step runLatex_traced needsRerun_traced)
      next
        case fixed: False
        from True rl None fixed "1.IH"(2) [OF True rl [symmetric] None fixed]
        show ?thesis
          by (simp add: render_loop_step loop_events_step runLatex_traced)
      qed
    qed
  qed
qed

lemma Render_unfold:
  "Render sy document options w =
     (case ioutil_TempDir sy [] ''gotex-'' w of
        (Inl err, w1) \<Rightarrow> (Inl err, w1)
      | (Inr dir, w1) \<Rightarrow>
          (case render_loop sy document (with_defaults options) dir (max_runs options) True 0 w1 of
             (Some err, w2) \<Rightarrow> (Inl err, w2)
           | (None, w2) \<Rightarrow>
               (case ioutil_ReadFile sy (path_Join [dir, ''gotex.pdf'']) w2 of
                  (Inl err, w3) \<Rightarrow> (Inl err, w3)
                | (Inr output, w3) \<Rightarrow> (Inr output, snd (os_RemoveAll sy dir w3)))))"
  by (simp add: Render_def with_defaults_def max_runs_def Let_def
      split: prod.splits sum.splits option.splits)

lemma Render_traced:
  "Render (traced sy) document options (w, tr) =
     (fst (Render sy document options w),
      (snd (Render sy document options w), tr @ Render_events sy document options w))"
proof -
  let ?o = "with_defaults options"
  obtain r0 w1 where td: "ioutil_TempDir sy [] ''gotex-'' w = (r0, w1)"
    by (cases "ioutil_TempDir sy [] ''gotex-'' w")
  have td': "ioutil_TempDir (traced sy) [] ''gotex-'' (w, tr) =
      (r0, (w1, tr @ [EvTempDir [] ''gotex-'' r0]))"
    by (simp add: traced_def td)
  have rf: "\<And>p w tr. ioutil_ReadFile (traced sy) p (w, tr) =
      (fst (ioutil_ReadFile sy p w),
       (snd (ioutil_ReadFile sy p w), tr @ [EvReadFile p (fst (ioutil_ReadFile sy p w))]))"
    by (simp add: traced_def split: prod.splits)
  have rm: "\<And>p w tr. os_RemoveAll (traced sy) p (w, tr) =
      (fst (os_RemoveAll sy p w),
       (snd (os_RemoveAll sy p w), tr @ [EvRemoveAll p (fst (os_RemoveAll sy p w))]))"
    by (simp add: traced_def split: prod.splits)
  show ?thesis
  proof (cases r0)
    case (Inl err)
    with td td' show ?thesis
      by (simp add: Render_unfold Render_events_def)
  next
    case (Inr dir)
    obtain e w2 where lp: "render_loop sy document ?o dir (max_runs options) True 0 w1 = (e, w2)"
      by (cases "render_loop sy document ?o dir (max_runs options) True 0 w1")
    show ?thesis
    proof (cases e)
      case (Some err)
      with Inr td td' lp show ?thesis
        by (simp add: Render_unfold Render_events_def render_loop_traced)
    next
      case None
      with Inr td td' lp show ?thesis
        by (simp add: Render_unfold Render_events_def render_loop_traced rf rm
            split: prod.splits sum.splits)
    qed
  qed
qed

lemma render_trace_events: "render_trace sy document options w = Render_events sy document options w"
  by (simp add: render_trace_def Render_traced)


section \<open>Lemmas about one pass and about the loop\<close>

lemma runLatex_ok_events:
  "runLatex sy document options dir w = (None, w1) \<Longrightarrow>
   runLatex_events sy document options dir w =
     [EvStart (the_cmd document options dir) None, EvWait (the_cmd document options dir) None]"
  by (auto simp: runLatex_def runLatex_events_def the_cmd_def exec_Command_def
      strings_NewReader_def Let_def split: prod.splits option.splits)

lemma runLatex_fail_events:
  "runLatex sy document options dir w = (Some err, w1) \<Longrightarrow>
   (\<exists>e. runLatex_events sy document options dir w = [EvStart (the_cmd document options dir) (Some e)]) \<or>
   (\<exists>e. runLatex_events sy document options dir w =
      [EvStart (the_cmd document options dir) None, EvWait (the_cmd document options dir) (Some e)])"
  by (auto simp: runLatex_def runLatex_events_def the_cmd_def exec_Command_def
      strings_NewReader_def Let_def split: prod.splits option.splits)

lemma needsRerun_answer_events:
  "needsRerun sy dir w = (b, w1) \<Longrightarrow>
   \<exists>r. log_says_rerun r = b \<and>
     (needsRerun_events sy dir w = [EvOpen (path_Join [dir, ''gotex.log'']) r] \<or>
      needsRerun_events sy dir w =
        [EvOpen (path_Join [dir, ''gotex.log'']) r, EvClose (path_Join [dir, ''gotex.log''])])"
  by (auto simp: needsRerun_def needsRerun_events_def log_says_rerun_def Let_def
      split: prod.splits sum.splits)

lemma loop_induct [consumes 0, case_names stop fail auto fixed]:
  assumes stop: "\<And>rerun runs w. \<not> (rerun \<and> runs < (maxRuns::int)) \<Longrightarrow> P rerun runs (w::'w)"
    and fail: "\<And>runs w err w1. runs < maxRuns \<Longrightarrow>
                 runLatex (sy::'w sys) document options dir w = (Some err, w1) \<Longrightarrow> P True runs (w::'w)"
    and auto: "\<And>runs w w1 rerun' w2. runs < maxRuns \<Longrightarrow> Runs options = 0 \<Longrightarrow>
                 runLatex sy document options dir w = (None, w1) \<Longrightarrow>
                 needsRerun sy dir w1 = (rerun', w2) \<Longrightarrow>
                 P rerun' (runs + 1) w2 \<Longrightarrow> P True runs w"
    and fixed: "\<And>runs w w1. runs < maxRuns \<Longrightarrow> Runs options \<noteq> 0 \<Longrightarrow>
                 runLatex sy document options dir w = (None, w1) \<Longrightarrow>
                 P True (runs + 1) w1 \<Longrightarrow> P True runs w"
  shows "P rerun runs (w::'w)"
proof -
  have "n = nat (maxRuns - runs) \<Longrightarrow> P rerun runs w" for n rerun runs and w :: 'w
  proof (induction n arbitrary: rerun runs w)
    case (0 rerun runs w)
    then have "\<not> (rerun \<and> runs < maxRuns)" by simp
    then show ?case by (rule stop)
  next
    case (Suc n rerun runs w)
    then have lt: "runs < maxRuns" and n: "n = nat (maxRuns - (runs + 1))" by linarith+
    show ?case
    proof (cases rerun)
      case False
      then show ?thesis by (simp add: stop)
    next
      case True
      obtain e w1 where rl: "runLatex sy document options dir w = (e, w1)"
        by (cases "runLatex sy document options dir w")
      show ?thesis
      proof (cases e)
        case (Some err)
        with rl lt True fail show ?thesis by simp
      next
        case None
        show ?thesis
        proof (cases "Runs options = 0")
          case z: True
          obtain r' w2 where nr: "needsRerun sy dir w1 = (r', w2)"
            by (cases "needsRerun sy dir w1")
          from auto [OF lt z rl [unfolded None] nr Suc.IH [OF n]] True
          show ?thesis by simp
        next
          case nz: False
          from fixed [OF lt nz rl [unfolded None] Suc.IH [OF n]] True
          show ?thesis by simp
        qed
      qed
    qed
  qed
  then show ?thesis by simp
qed

lemma invocations_simps [simp]:
  "invocations [] = 0"
  "invocations (e # tr) = (if is_invocation e then Suc (invocations tr) else invocations tr)"
  "invocations (tr @ tr') = invocations tr + invocations tr'"
  by (simp_all add: invocations_def)

lemma consultations_simps [simp]:
  "consultations [] = 0"
  "consultations (e # tr) = (if is_consultation e then Suc (consultations tr) else consultations tr)"
  "consultations (tr @ tr') = consultations tr + consultations tr'"
  by (simp_all add: consultations_def)

lemma removals_simps [simp]:
  "removals [] = 0"
  "removals (e # tr) = (if is_removal e then Suc (removals tr) else removals tr)"
  "removals (tr @ tr') = removals tr + removals tr'"
  by (simp_all add: removals_def)

lemma artifact_reads_simps [simp]:
  "artifact_reads [] = 0"
  "artifact_reads (e # tr) = (if is_artifact_read e then Suc (artifact_reads tr) else artifact_reads tr)"
  "artifact_reads (tr @ tr') = artifact_reads tr + artifact_reads tr'"
  by (simp_all add: artifact_reads_def)

lemma loop_invocations_le:
  "invocations (loop_events sy document options dir maxRuns rerun runs w) \<le> nat (maxRuns - runs)"
proof (induction rerun runs w rule: loop_induct [where maxRuns = maxRuns and sy = sy
      and document = document and options = options and dir = dir])
  case (stop rerun runs w)
  then show ?case by (simp add: loop_events_stop)
next
  case (fail runs w err w1)
  from runLatex_fail_events [OF fail(2)] fail show ?case
    by (auto simp: loop_events_step)
next
  case (auto runs w w1 rerun' w2)
  from needsRerun_answer_events [OF auto(4)] auto show ?case
    by (auto simp: loop_events_step runLatex_ok_events)
next
  case (fixed runs w w1)
  then show ?case
    by (auto simp: loop_events_step runLatex_ok_events)
qed


lemma loop_fixed_no_consultation:
  "Runs options \<noteq> 0 \<Longrightarrow>
   consultations (loop_events sy document options dir maxRuns rerun runs w) = 0"
proof (induction rerun runs w rule: loop_induct [where maxRuns = maxRuns and sy = sy
      and document = document and options = options and dir = dir])
  case (stop rerun runs w)
  then show ?case by (simp add: loop_events_stop)
next
  case (fail runs w err w1)
  from runLatex_fail_events [OF fail(2)] fail show ?case
    by (auto simp: loop_events_step)
next
  case (auto runs w w1 rerun' w2)
  then show ?case by simp
next
  case (fixed runs w w1)
  then show ?case
    by (auto simp: loop_events_step runLatex_ok_events)
qed

lemma loop_fixed_exact:
  "Runs options \<noteq> 0 \<Longrightarrow> rerun \<Longrightarrow>
   \<not> list_ex invocation_failed (loop_events sy document options dir maxRuns rerun runs w) \<Longrightarrow>
   invocations (loop_events sy document options dir maxRuns rerun runs w) = nat (maxRuns - runs)"
proof (induction rerun runs w rule: loop_induct [where maxRuns = maxRuns and sy = sy
      and document = document and options = options and dir = dir])
  case (stop rerun runs w)
  then show ?case by (simp add: loop_events_stop)
next
  case (fail runs w err w1)
  from runLatex_fail_events [OF fail(2)] fail show ?case
    by (auto simp: loop_events_step)
next
  case (auto runs w w1 rerun' w2)
  then show ?case by simp
next
  case (fixed runs w w1)
  then show ?case
    by (auto simp: loop_events_step runLatex_ok_events)
qed

lemma loop_auto_all_yes:
  "Runs options = 0 \<Longrightarrow> rerun \<Longrightarrow>
   \<forall>a\<in>set (pass_answers (loop_events sy document options dir maxRuns rerun runs w)).
      a = Some True \<Longrightarrow>
   invocations (loop_events sy document options dir maxRuns rerun runs w) = nat (maxRuns - runs)"
proof (induction rerun runs w rule: loop_induct [where maxRuns = maxRuns and sy = sy
      and document = document and options = options and dir = dir])
  case (stop rerun runs w)
  then show ?case by (simp add: loop_events_stop)
next
  case (fail runs w err w1)
  from runLatex_fail_events [OF fail(2)] fail show ?case
    by (auto simp: loop_events_step)
next
  case (auto runs w w1 rerun' w2)
  from needsRerun_answer_events [OF auto(4)] auto show ?case
    by (auto simp: loop_events_step runLatex_ok_events)
next
  case (fixed runs w w1)
  then show ?case by simp
qed

lemma loop_auto_first_no:
  "Runs options = 0 \<Longrightarrow> rerun \<Longrightarrow>
   take (Suc k) (pass_answers (loop_events sy document options dir maxRuns rerun runs w)) =
     replicate k (Some True) @ [Some False] \<Longrightarrow>
   invocations (loop_events sy document options dir maxRuns rerun runs w) = Suc k \<and>
   consultations (loop_events sy document options dir maxRuns rerun runs w) = Suc k \<and>
   fst (render_loop sy document options dir maxRuns rerun runs w) = None"
proof (induction rerun runs w arbitrary: k rule: loop_induct [where maxRuns = maxRuns and sy = sy
      and document = document and options = options and dir = dir])
  case (stop rerun runs w)
  then show ?case by (simp add: loop_events_stop)
next
  case (fail runs w err w1)
  from runLatex_fail_events [OF fail(2)] fail show ?case
    by (cases k) (auto simp: loop_events_step)
next
  case (auto runs w w1 rerun' w2)
  from needsRerun_answer_events [OF auto(4)]
  obtain r tl where r: "log_says_rerun r = rerun'"
    and ev: "needsRerun_events sy dir w1 = EvOpen (path_Join [dir, ''gotex.log'']) r # tl"
    and tl: "tl = [] \<or> tl = [EvClose (path_Join [dir, ''gotex.log''])]"
    by auto
  let ?rest = "loop_events sy document options dir maxRuns rerun' (runs + 1) w2"
  have ev_all: "loop_events sy document options dir maxRuns True runs w =
      [EvStart (the_cmd document options dir) None, EvWait (the_cmd document options dir) None]
      @ (EvOpen (path_Join [dir, ''gotex.log'']) r # tl) @ ?rest"
    using auto(1,2,3,4) ev by (simp add: loop_events_step runLatex_ok_events)
  have pa: "pass_answers (loop_events sy document options dir maxRuns True runs w) =
      Some rerun' # pass_answers ?rest"
    using tl r by (auto simp: ev_all)
  have rl: "render_loop sy document options dir maxRuns True runs w =
      render_loop sy document options dir maxRuns rerun' (runs + 1) w2"
    using auto(1,2,3,4) by (simp add: render_loop_step)
  have cnt: "invocations (loop_events sy document options dir maxRuns True runs w) = Suc (invocations ?rest)"
      "consultations (loop_events sy document options dir maxRuns True runs w) = Suc (consultations ?rest)"
    using tl by (auto simp: ev_all)
  show ?case
  proof (cases rerun')
    case True
    with auto.prems pa obtain k' where k: "k = Suc k'"
      by (cases k) auto
    with auto.prems pa True
    have "take (Suc k') (pass_answers ?rest) = replicate k' (Some True) @ [Some False]"
      by simp
    from auto.IH [OF auto.prems(1) True this] k cnt rl show ?thesis
      by simp
  next
    case False
    with auto.prems pa have k: "k = 0"
      by (cases k) auto
    from False have "?rest = []" "render_loop sy document options dir maxRuns rerun' (runs + 1) w2 = (None, w2)"
      by (simp_all add: loop_events_stop render_loop_stop)
    with k cnt rl show ?thesis by simp
  qed
next
  case (fixed runs w w1)
  then show ?case by simp
qed

lemma loop_events_shape:
  "list_all (loop_event (the_cmd document options dir) (path_Join [dir, ''gotex.log'']))
     (loop_events sy document options dir maxRuns rerun runs w)"
proof (induction rerun runs w rule: loop_induct [where maxRuns = maxRuns and sy = sy
      and document = document and options = options and dir = dir])
  case (stop rerun runs w)
  then show ?case by (simp add: loop_events_stop)
next
  case (fail runs w err w1)
  from runLatex_fail_events [OF fail(2)] fail show ?case
    by (auto simp: loop_events_step)
next
  case (auto runs w w1 rerun' w2)
  from needsRerun_answer_events [OF auto(4)] auto show ?case
    by (auto simp: loop_events_step runLatex_ok_events)
next
  case (fixed runs w w1)
  then show ?case
    by (auto simp: loop_events_step runLatex_ok_events)
qed

lemma loop_events_first:
  "rerun \<Longrightarrow> runs < maxRuns \<Longrightarrow>
   \<exists>r rest. loop_events sy document options dir maxRuns rerun runs w =
     EvStart (the_cmd document options dir) r # rest"
  by (auto simp: loop_events_step runLatex_events_def Let_def split: prod.splits option.splits)

lemma loop_result_failed:
  "(fst (render_loop sy document options dir maxRuns rerun runs w) \<noteq> None) =
   list_ex invocation_failed (loop_events sy document options dir maxRuns rerun runs w)"
proof (induction rerun runs w rule: loop_induct [where maxRuns = maxRuns and sy = sy
      and document = document and options = options and dir = dir])
  case (stop rerun runs w)
  then show ?case by (simp add: loop_events_stop render_loop_stop)
next
  case (fail runs w err w1)
  from runLatex_fail_events [OF fail(2)] fail show ?case
    by (auto simp: loop_events_step render_loop_step)
next
  case (auto runs w w1 rerun' w2)
  from needsRerun_answer_events [OF auto(4)] auto show ?case
    by (auto simp: loop_events_step render_loop_step runLatex_ok_events)
next
  case (fixed runs w w1)
  then show ?case
    by (auto simp: loop_events_step render_loop_step runLatex_ok_events)
qed

section \<open>The shape of a run of Render\<close>

lemma Render_failed_tempdir:
  assumes "fst (ioutil_TempDir sy [] ''gotex-'' w) = Inl err"
  shows "Render sy document options w = (Inl err, snd (ioutil_TempDir sy [] ''gotex-'' w))"
    and "Render_events sy document options w = [EvTempDir [] ''gotex-'' (Inl err)]"
  using assms
  by (cases "ioutil_TempDir sy [] ''gotex-'' w"; simp add: Render_unfold Render_events_def)+

lemma Render_cases:
  fixes document :: string and options :: Options
  assumes td: "fst (ioutil_TempDir sy [] ''gotex-'' w) = Inr dir"
  defines "w1 \<equiv> snd (ioutil_TempDir sy [] ''gotex-'' w)"
  defines "ev \<equiv> loop_events sy document (with_defaults options) dir (max_runs options) True 0 w1"
  defines "lp \<equiv> fst (render_loop sy document (with_defaults options) dir (max_runs options) True 0 w1)"
  defines "pdf \<equiv> path_Join [dir, ''gotex.pdf'']"
  shows "\<exists>tail. Render_events sy document options w = EvTempDir [] ''gotex-'' (Inr dir) # ev @ tail \<and>
     ((\<exists>err. lp = Some err \<and> tail = [] \<and> fst (Render sy document options w) = Inl err) \<or>
      (\<exists>err. lp = None \<and> tail = [EvReadFile pdf (Inl err)] \<and>
         fst (Render sy document options w) = Inl err) \<or>
      (\<exists>output r. lp = None \<and> tail = [EvReadFile pdf (Inr output), EvRemoveAll dir r] \<and>
         fst (Render sy document options w) = Inr output))"
proof -
  have td': "ioutil_TempDir sy [] ''gotex-'' w = (Inr dir, w1)"
    using td by (simp add: w1_def prod_eq_iff)
  obtain e w2 where lp': "render_loop sy document (with_defaults options) dir (max_runs options) True 0 w1 = (e, w2)"
    by (cases "render_loop sy document (with_defaults options) dir (max_runs options) True 0 w1")
  obtain r3 w3 where rf: "ioutil_ReadFile sy pdf w2 = (r3, w3)"
    by (cases "ioutil_ReadFile sy pdf w2")
  show ?thesis
  proof (cases e)
    case (Some err)
    with td' lp' show ?thesis
      by (simp add: Render_unfold Render_events_def ev_def lp_def)
  next
    case None
    show ?thesis
    proof (cases r3)
      case (Inl err)
      with None td' lp' rf show ?thesis
        by (simp add: Render_unfold Render_events_def ev_def lp_def pdf_def [symmetric])
    next
      case (Inr out)
      with None td' lp' rf show ?thesis
        by (simp add: Render_unfold Render_events_def ev_def lp_def pdf_def [symmetric])
    qed
  qed
qed

lemma max_runs_pos: "0 < max_runs options"
  by (simp add: max_runs_def)

lemma Runs_with_defaults [simp]: "Runs (with_defaults options) = Runs options"
  by (simp add: with_defaults_def)

lemma loop_event_kind:
  "loop_event cmd name e \<Longrightarrow> \<not> is_removal e \<and> \<not> is_artifact_read e"
  by (cases e) auto

lemma loop_no_removal:
  "removals (loop_events sy document options dir maxRuns rerun runs w) = 0"
  using loop_events_shape [of document options dir sy maxRuns rerun runs w]
  by (auto simp: removals_def list_all_iff filter_empty_conv dest: loop_event_kind)

section \<open>What a run counts\<close>

lemma tail_kinds:
  fixes document :: string and options :: Options
  assumes td: "fst (ioutil_TempDir sy [] ''gotex-'' w) = Inr dir"
  shows "\<exists>tail. render_trace sy document options w =
      EvTempDir [] ''gotex-'' (Inr dir) #
      loop_events sy document (with_defaults options) dir (max_runs options) True 0
        (snd (ioutil_TempDir sy [] ''gotex-'' w)) @ tail \<and>
      (tail = [] \<or> (\<exists>p r. tail = [EvReadFile p r]) \<or> (\<exists>p r d r'. tail = [EvReadFile p r, EvRemoveAll d r']))"
  using Render_cases [OF td, of document options]
  by (auto simp: render_trace_events)

lemma answer_after_tail:
  "tail = [] \<or> (\<exists>p r. tail = [EvReadFile p r]) \<or> (\<exists>p r d r'. tail = [EvReadFile p r, EvRemoveAll d r']) \<Longrightarrow>
   answer_after (es @ tail) = answer_after es"
  by (induction es rule: answer_after.induct) auto

lemma pass_answers_tail:
  "tail = [] \<or> (\<exists>p r. tail = [EvReadFile p r]) \<or> (\<exists>p r d r'. tail = [EvReadFile p r, EvRemoveAll d r']) \<Longrightarrow>
   pass_answers (es @ tail) = pass_answers es"
  by (induction es) (auto simp: answer_after_tail)

lemma trace_counts:
  fixes document :: string and options :: Options
  assumes td: "fst (ioutil_TempDir sy [] ''gotex-'' w) = Inr dir"
  defines "ev \<equiv> loop_events sy document (with_defaults options) dir (max_runs options) True 0
        (snd (ioutil_TempDir sy [] ''gotex-'' w))"
  shows "invocations (render_trace sy document options w) = invocations ev"
    and "consultations (render_trace sy document options w) = consultations ev"
    and "pass_answers (render_trace sy document options w) = pass_answers ev"
    and "list_ex invocation_failed (render_trace sy document options w) = list_ex invocation_failed ev"
proof -
  from tail_kinds [OF td, of document options]
  obtain tail where tr: "render_trace sy document options w = EvTempDir [] ''gotex-'' (Inr dir) # ev @ tail"
    and tail: "tail = [] \<or> (\<exists>p r. tail = [EvReadFile p r]) \<or> (\<exists>p r d r'. tail = [EvReadFile p r, EvRemoveAll d r'])"
    unfolding ev_def by blast
  from tail show "invocations (render_trace sy document options w) = invocations ev"
    by (auto simp: tr)
  from tail show "consultations (render_trace sy document options w) = consultations ev"
    by (auto simp: tr)
  from tail show "pass_answers (render_trace sy document options w) = pass_answers ev"
    by (simp add: tr pass_answers_tail)
  from tail show "list_ex invocation_failed (render_trace sy document options w) = list_ex invocation_failed ev"
    by (auto simp: tr)
qed

lemma trace_no_tempdir:
  assumes "fst (ioutil_TempDir sy [] ''gotex-'' w) = Inl err"
  shows "invocations (render_trace sy document options w) = 0"
    and "consultations (render_trace sy document options w) = 0"
    and "pass_answers (render_trace sy document options w) = []"
  using Render_failed_tempdir [OF assms, of document options]
  by (simp_all add: render_trace_events)

lemma negative_runs_five_unconditional:
  assumes "Runs options < 0"
  shows "consultations (render_trace sy document options w) = 0 \<and>
         ((\<exists>dir. fst (ioutil_TempDir sy [] ''gotex-'' w) = Inr dir) \<and>
          \<not> list_ex invocation_failed (render_trace sy document options w)
          \<longrightarrow> invocations (render_trace sy document options w) = 5)"
proof (cases "fst (ioutil_TempDir sy [] ''gotex-'' w)")
  case (Inl err)
  from trace_no_tempdir [OF this, of document options] Inl show ?thesis by simp
next
  case (Inr dir)
  have mr: "max_runs options = 5" using assms by (simp add: max_runs_def)
  have nz: "Runs (with_defaults options) \<noteq> 0" using assms by simp
  from trace_counts [OF Inr, of document options]
    loop_fixed_no_consultation [OF nz, of sy document dir "max_runs options" True 0]
    loop_fixed_exact [OF nz, of True sy document dir "max_runs options" 0]
  show ?thesis by (simp add: mr)
qed

section \<open>The scanner and the lines of the log\<close>

lemma log_lines_unfold:
  "s \<noteq> [] \<Longrightarrow>
   log_lines s = takeWhile (\<lambda>c. \<not> is_newline c) s #
     log_lines (drop (Suc (length (takeWhile (\<lambda>c. \<not> is_newline c) s))) s)"
proof (induction s)
  case Nil
  then show ?case by simp
next
  case (Cons c cs)
  show ?case
  proof (cases "is_newline c")
    case True
    then show ?thesis by simp
  next
    case False
    show ?thesis
    proof (cases "cs = []")
      case True
      with False show ?thesis by simp
    next
      case ne: False
      from Cons.IH [OF ne] False show ?thesis by simp
    qed
  qed
qed

lemma sublist_snoc_other:
  assumes "m \<noteq> []" and "last m \<noteq> c"
  shows "sublist m (xs @ [c]) = sublist m xs"
proof
  assume "sublist m (xs @ [c])"
  then consider "sublist m xs" | "sublist m [c]"
    | xs1 xs2 where "m = xs1 @ xs2" "suffix xs1 xs" "prefix xs2 [c]"
    unfolding sublist_append by blast
  then show "sublist m xs"
  proof cases
    case 1
    then show ?thesis .
  next
    case 2
    then have "m = [] \<or> m = [c]"
      by (cases m) (auto simp: sublist_Cons_right)
    with assms show ?thesis by auto
  next
    case 3
    from 3(3) have "xs2 = [] \<or> xs2 = [c]"
      by (cases xs2) auto
    then show ?thesis
    proof
      assume "xs2 = []"
      with 3 show ?thesis by (auto simp: suffix_def)
    next
      assume "xs2 = [c]"
      with 3(1) assms show ?thesis by simp
    qed
  qed
next
  assume "sublist m xs"
  then show "sublist m (xs @ [c])"
    by (simp add: sublist_append)
qed

lemma Contains_dropCR:
  "strings_Contains (dropCR l) ''Rerun to get'' = strings_Contains l ''Rerun to get''"
proof (cases "l \<noteq> [] \<and> last l = CHR 0x0D")
  case True
  then have l: "l = butlast l @ [CHR 0x0D]"
    by (metis append_butlast_last_id)
  have "sublist ''Rerun to get'' (butlast l @ [CHR 0x0D]) = sublist ''Rerun to get'' (butlast l)"
    by (rule sublist_snoc_other) simp_all
  with True l show ?thesis
    by (simp add: dropCR_def strings_Contains_def)
next
  case False
  then show ?thesis by (auto simp: dropCR_def)
qed

lemma scan_for_marker_list_ex:
  "scan_for_marker ts = list_ex (\<lambda>t. strings_Contains t ''Rerun to get'') ts"
  by (induction ts) auto

lemma scan_Scanner_tokens:
  "scan_for_marker (Scanner_tokens s) =
   list_ex (\<lambda>l. strings_Contains l ''Rerun to get'') (scanned_lines s)"
proof (induction s rule: Scanner_tokens.induct)
  case (1 s)
  show ?case
  proof (cases "s = []")
    case True
    then show ?thesis
      by (simp add: Scanner_tokens.simps [of "[]"] scanned_lines_def)
  next
    case False
    let ?l = "takeWhile (\<lambda>c. \<not> is_newline c) s"
    show ?thesis
    proof (cases "MaxScanTokenSize \<le> int (length ?l)")
      case True
      with False show ?thesis
        by (simp add: Scanner_tokens.simps [of s] scanned_lines_def log_lines_unfold [OF False]
            Let_def)
    next
      case short: False
      from "1.IH" [OF False refl short] False short show ?thesis
        by (simp add: Scanner_tokens.simps [of s] scanned_lines_def log_lines_unfold [OF False]
            Contains_dropCR Let_def)
    qed
  qed
qed

lemma needsRerun_answer:
  "fst (needsRerun sy dir w) =
     (case fst (os_Open sy (path_Join [dir, ''gotex.log'']) w) of
        Inl err \<Rightarrow> False
      | Inr file \<Rightarrow> list_ex (\<lambda>l. strings_Contains l ''Rerun to get'') (scanned_lines file))"
  by (simp add: needsRerun_def scan_Scanner_tokens split: prod.splits sum.splits)

lemma scanned_lines_all_short:
  "\<forall>l\<in>set (log_lines file). int (length l) < MaxScanTokenSize \<Longrightarrow>
   scanned_lines file = log_lines file"
  by (simp add: scanned_lines_def)

lemma log_lines_first:
  "\<forall>c\<in>set l. \<not> is_newline c \<Longrightarrow> is_newline n \<Longrightarrow> log_lines (l @ n # rest) = l # log_lines rest"
  by (induction l) auto

lemma long_line_facts:
  "length long_line = 65536" "\<forall>c\<in>set long_line. \<not> is_newline c"
  by (simp_all add: long_line_def is_newline_def)

lemma long_line_log_lines: "log_lines long_line_log = [long_line, ''Rerun to get'']"
proof -
  have "log_lines ''Rerun to get'' = [''Rerun to get'']"
    by (simp add: is_newline_def)
  with log_lines_first [OF long_line_facts(2), of "CHR 0x0A" "''Rerun to get''"] show ?thesis
    by (simp add: long_line_log_def is_newline_def)
qed

section \<open>The claims\<close>

text \<open>
  In the statements below, \<open>render_trace sy document options w\<close> is the sequence of
  library calls that \<^verbatim>\<open>Render(document, options)\<close> makes when started in the world
  \<open>w\<close> of the system \<open>sy\<close>, and \<open>fst (Render sy document options w)\<close> is what it
  returns. Both are for an arbitrary system: any file system, any compiler.
\<close>

text \<open>
  \<^bold>\<open>C1.\<close> With \<^verbatim>\<open>Runs = N > 0\<close> the rerun detector is never consulted and the
  compiler is invoked at most \<open>N\<close> times; it is invoked exactly \<open>N\<close> times when the
  working area is created and no invocation fails. (A failing invocation ends the render
  at once, so "exactly \<open>N\<close> for every document" does not hold: see the counterexample.)
\<close>

theorem fixed_count_invocations:
  assumes "0 < Runs options"
  shows "consultations (render_trace sy document options w) = 0 \<and>
         invocations (render_trace sy document options w) \<le> nat (Runs options) \<and>
         ((\<exists>dir. fst (ioutil_TempDir sy [] ''gotex-'' w) = Inr dir) \<and>
          \<not> list_ex invocation_failed (render_trace sy document options w)
          \<longrightarrow> invocations (render_trace sy document options w) = nat (Runs options))"
proof (cases "fst (ioutil_TempDir sy [] ''gotex-'' w)")
  case (Inl err)
  from trace_no_tempdir [OF this, of document options] Inl show ?thesis by simp
next
  case (Inr dir)
  have mr: "max_runs options = Runs options" using assms by (simp add: max_runs_def)
  have nz: "Runs (with_defaults options) \<noteq> 0" using assms by simp
  from trace_counts [OF Inr, of document options]
    loop_fixed_no_consultation [OF nz, of sy document dir "max_runs options" True 0]
    loop_invocations_le [of sy document "with_defaults options" dir "max_runs options" True 0]
    loop_fixed_exact [OF nz, of True sy document dir "max_runs options" 0]
  show ?thesis by (simp add: mr)
qed

text \<open>
  Three passes asked for, on logs that all carry the rerun marker: three invocations, and
  the log is never opened.
\<close>

theorem fixed_count_invocations_witness:
  "0 < Runs three_runs \<and>
   fst (ioutil_TempDir sim [] ''gotex-'' (world0 (replicate 4 (good_run rerun_log)))) =
     Inr ''/tmp/gotex-042'' \<and>
   \<not> list_ex invocation_failed
       (render_trace sim ''doc'' three_runs (world0 (replicate 4 (good_run rerun_log)))) \<and>
   consultations (render_trace sim ''doc'' three_runs (world0 (replicate 4 (good_run rerun_log)))) = 0 \<and>
   invocations (render_trace sim ''doc'' three_runs (world0 (replicate 4 (good_run rerun_log)))) = 3"
proof -
  have h1: "0 < Runs three_runs" by (simp add: three_runs_def)
  have h2: "fst (ioutil_TempDir sim [] ''gotex-'' (world0 (replicate 4 (good_run rerun_log)))) =
     Inr ''/tmp/gotex-042''"
    by code_simp
  have h3: "\<not> list_ex invocation_failed
       (render_trace sim ''doc'' three_runs (world0 (replicate 4 (good_run rerun_log))))"
    by code_simp
  have n: "nat (Runs three_runs) = 3" by (simp add: three_runs_def)
  from fixed_count_invocations [OF h1, of sim "''doc''" "world0 (replicate 4 (good_run rerun_log))"]
    h1 h2 h3 n
  show ?thesis by simp
qed

text \<open>
  The claim as stated fails on a document that does not compile: with \<^verbatim>\<open>Runs = 3\<close>
  and a compiler that exits with an error, there is one invocation, not three.
\<close>

theorem fixed_count_counterexample:
  "Runs three_runs = 3 \<and>
   fst (ioutil_TempDir sim [] ''gotex-'' (world0 [bad_run, bad_run, bad_run])) = Inr ''/tmp/gotex-042'' \<and>
   invocations (render_trace sim ''bad document'' three_runs (world0 [bad_run, bad_run, bad_run])) = 1"
  by code_simp

text \<open>
  \<^bold>\<open>C2.\<close> A negative \<^verbatim>\<open>Runs\<close> is not treated as 0. The bound \<^verbatim>\<open>maxRuns\<close>
  stays 5 (the test is \<^verbatim>\<open>Runs > 0\<close>), but the detector is asked only when
  \<^verbatim>\<open>Runs == 0\<close>, so \<^verbatim>\<open>rerun\<close> stays true: on a document that compiles and whose
  log asks for no rerun, \<^verbatim>\<open>Runs = -1\<close> gives five invocations and no look at the
  log, where \<^verbatim>\<open>Runs = 0\<close> gives one invocation and one look at the log.
\<close>

theorem negative_runs_is_not_auto_mode:
  "Runs negative_runs = - 1 \<and>
   invocations (render_trace sim ''doc'' negative_runs (world0 (replicate 7 (good_run quiet_log)))) = 5 \<and>
   consultations (render_trace sim ''doc'' negative_runs (world0 (replicate 7 (good_run quiet_log)))) = 0 \<and>
   Runs auto_options = 0 \<and>
   invocations (render_trace sim ''doc'' auto_options (world0 (replicate 7 (good_run quiet_log)))) = 1 \<and>
   consultations (render_trace sim ''doc'' auto_options (world0 (replicate 7 (good_run quiet_log)))) = 1"
  by code_simp

text \<open>
  \<^bold>\<open>C3.\<close> With \<^verbatim>\<open>Runs = 0\<close> there are never more than five invocations. When the
  loop is reached (the working area is created) and the detector answers yes after every
  pass of the run, there are exactly five. A pass that fails is followed by no answer
  (\<open>pass_answers\<close> has \<open>None\<close> for it), so such runs are outside the premise.
\<close>

theorem auto_mode_stops_at_five:
  assumes "Runs options = 0"
  shows "invocations (render_trace sy document options w) \<le> 5 \<and>
         ((\<exists>dir. fst (ioutil_TempDir sy [] ''gotex-'' w) = Inr dir) \<and>
          (\<forall>a\<in>set (pass_answers (render_trace sy document options w)). a = Some True)
          \<longrightarrow> invocations (render_trace sy document options w) = 5)"
proof (cases "fst (ioutil_TempDir sy [] ''gotex-'' w)")
  case (Inl err)
  from trace_no_tempdir [OF this, of document options] Inl show ?thesis by simp
next
  case (Inr dir)
  have mr: "max_runs options = 5" using assms by (simp add: max_runs_def)
  have z: "Runs (with_defaults options) = 0" using assms by simp
  from trace_counts [OF Inr, of document options]
    loop_invocations_le [of sy document "with_defaults options" dir "max_runs options" True 0]
    loop_auto_all_yes [OF z, of True sy document dir "max_runs options" 0]
  show ?thesis by (simp add: mr)
qed

text \<open>Seven compiler runs are available, each log asks for a rerun: five are used.\<close>

theorem auto_mode_stops_at_five_witness:
  "Runs auto_options = 0 \<and>
   fst (ioutil_TempDir sim [] ''gotex-'' (world0 (replicate 7 (good_run rerun_log)))) =
     Inr ''/tmp/gotex-042'' \<and>
   pass_answers (render_trace sim ''doc'' auto_options (world0 (replicate 7 (good_run rerun_log)))) =
     [Some True, Some True, Some True, Some True, Some True] \<and>
   invocations (render_trace sim ''doc'' auto_options (world0 (replicate 7 (good_run rerun_log)))) = 5"
proof -
  have h1: "Runs auto_options = 0" by (simp add: auto_options_def)
  have h2: "fst (ioutil_TempDir sim [] ''gotex-'' (world0 (replicate 7 (good_run rerun_log)))) =
     Inr ''/tmp/gotex-042''"
    by code_simp
  have h3: "pass_answers (render_trace sim ''doc'' auto_options (world0 (replicate 7 (good_run rerun_log)))) =
     [Some True, Some True, Some True, Some True, Some True]"
    by code_simp
  from auto_mode_stops_at_five [OF h1, of sim "''doc''" "world0 (replicate 7 (good_run rerun_log))"]
    h1 h2 h3
  show ?thesis by simp
qed

text \<open>
  \<^bold>\<open>C4.\<close> With \<^verbatim>\<open>Runs = 0\<close>, when the detector answers yes after the first pass,
  yes after the second and no after the third, there are exactly three invocations and
  three consultations, and the read of the artifact follows: it comes after the three
  invocations and no invocation comes after it.
\<close>

theorem auto_mode_three_passes:
  assumes "Runs options = 0"
    and "take 3 (pass_answers (render_trace sy document options w)) =
           [Some True, Some True, Some False]"
  shows "invocations (render_trace sy document options w) = 3 \<and>
         consultations (render_trace sy document options w) = 3 \<and>
         (\<exists>dir pre r post. fst (ioutil_TempDir sy [] ''gotex-'' w) = Inr dir \<and>
            render_trace sy document options w =
              pre @ EvReadFile (path_Join [dir, ''gotex.pdf'']) r # post \<and>
            invocations pre = 3 \<and> invocations post = 0)"
proof (cases "fst (ioutil_TempDir sy [] ''gotex-'' w)")
  case (Inl err)
  from trace_no_tempdir [OF this, of document options] assms(2) show ?thesis by simp
next
  case (Inr dir)
  let ?w1 = "snd (ioutil_TempDir sy [] ''gotex-'' w)"
  let ?ev = "loop_events sy document (with_defaults options) dir (max_runs options) True 0 ?w1"
  have z: "Runs (with_defaults options) = 0" using assms by simp
  from assms(2) trace_counts(3) [OF Inr, of document options]
  have "take (Suc 2) (pass_answers ?ev) = replicate 2 (Some True) @ [Some False]"
    by (simp add: numeral_2_eq_2 numeral_3_eq_3)
  from loop_auto_first_no [OF z _ this]
  have n: "invocations ?ev = 3" "consultations ?ev = 3"
    and lp: "fst (render_loop sy document (with_defaults options) dir (max_runs options) True 0 ?w1) = None"
    by simp_all
  from Render_cases [OF Inr, of document options] lp
  obtain tail r where tr: "render_trace sy document options w =
      EvTempDir [] ''gotex-'' (Inr dir) # ?ev @ tail"
    and tail: "tail = [EvReadFile (path_Join [dir, ''gotex.pdf'']) r] \<or>
      (\<exists>r'. tail = [EvReadFile (path_Join [dir, ''gotex.pdf'']) r, EvRemoveAll dir r'])"
    by (auto simp: render_trace_events)
  from tail obtain post where post: "tail = EvReadFile (path_Join [dir, ''gotex.pdf'']) r # post"
    and np: "invocations post = 0"
    by auto
  have split: "render_trace sy document options w =
      (EvTempDir [] ''gotex-'' (Inr dir) # ?ev) @ EvReadFile (path_Join [dir, ''gotex.pdf'']) r # post"
    by (simp add: tr post)
  have pre: "invocations (EvTempDir [] ''gotex-'' (Inr dir) # ?ev) = 3"
    using n by simp
  have "\<exists>dir pre r post. fst (ioutil_TempDir sy [] ''gotex-'' w) = Inr dir \<and>
            render_trace sy document options w =
              pre @ EvReadFile (path_Join [dir, ''gotex.pdf'']) r # post \<and>
            invocations pre = 3 \<and> invocations post = 0"
    by (intro exI conjI) (rule Inr, rule split, rule pre, rule np)
  with trace_counts(1,2) [OF Inr, of document options] n show ?thesis
    by simp
qed

theorem auto_mode_three_passes_witness:
  "Runs auto_options = 0 \<and>
   take 3 (pass_answers (render_trace sim ''doc'' auto_options
      (world0 [good_run rerun_log, good_run rerun_log, good_run quiet_log, good_run rerun_log]))) =
     [Some True, Some True, Some False] \<and>
   invocations (render_trace sim ''doc'' auto_options
      (world0 [good_run rerun_log, good_run rerun_log, good_run quiet_log, good_run rerun_log])) = 3 \<and>
   consultations (render_trace sim ''doc'' auto_options
      (world0 [good_run rerun_log, good_run rerun_log, good_run quiet_log, good_run rerun_log])) = 3"
proof -
  have h1: "Runs auto_options = 0" by (simp add: auto_options_def)
  have h2: "take 3 (pass_answers (render_trace sim ''doc'' auto_options
      (world0 [good_run rerun_log, good_run rerun_log, good_run quiet_log, good_run rerun_log]))) =
     [Some True, Some True, Some False]"
    by code_simp
  from auto_mode_three_passes [OF h1 h2] h1 h2
  show ?thesis by simp
qed

text \<open>
  \<^bold>\<open>C5.\<close> \<^verbatim>\<open>needsRerun\<close> returns false when the log does not open (it has no
  error result at all). When the log opens, it returns true exactly when one of the
  scanned lines contains \<^verbatim>\<open>Rerun to get\<close>, the scanned lines being those before the
  first line of 65536 bytes or more (there \<^verbatim>\<open>bufio.Scanner\<close> gives up). So when every
  line is shorter than that, it returns true exactly when some line of the log contains
  the marker.
\<close>

theorem needsRerun_scans_log:
  "fst (needsRerun sy dir w) =
     (case fst (os_Open sy (path_Join [dir, ''gotex.log'']) w) of
        Inl err \<Rightarrow> False
      | Inr file \<Rightarrow> list_ex (\<lambda>l. strings_Contains l ''Rerun to get'') (scanned_lines file)) \<and>
   (\<forall>file. fst (os_Open sy (path_Join [dir, ''gotex.log'']) w) = Inr file \<and>
      (\<forall>l\<in>set (log_lines file). int (length l) < MaxScanTokenSize) \<longrightarrow>
      fst (needsRerun sy dir w) = some_line_has_marker file) \<and>
   (\<forall>err. fst (os_Open sy (path_Join [dir, ''gotex.log'']) w) = Inl err \<longrightarrow>
      fst (needsRerun sy dir w) = False)"
  by (auto simp: needsRerun_answer scanned_lines_all_short some_line_has_marker_def)

text \<open>A log with the marker line, and a working area without a log.\<close>

theorem needsRerun_scans_log_witness:
  "fst (os_Open sim (path_Join [''/tmp/gotex-042'', ''gotex.log''])
        ((world0 [])\<lparr>files := [(''/tmp/gotex-042/gotex.log'', rerun_log)]\<rparr>)) = Inr rerun_log \<and>
   list_all (\<lambda>l. int (length l) < MaxScanTokenSize) (log_lines rerun_log) \<and>
   some_line_has_marker rerun_log \<and>
   fst (needsRerun sim ''/tmp/gotex-042''
        ((world0 [])\<lparr>files := [(''/tmp/gotex-042/gotex.log'', rerun_log)]\<rparr>)) = True \<and>
   fst (os_Open sim (path_Join [''/tmp/gotex-042'', ''gotex.log'']) (world0 [])) =
     Inl (SysError ''open /tmp/gotex-042/gotex.log: no such file or directory'') \<and>
   fst (needsRerun sim ''/tmp/gotex-042'' (world0 [])) = False"
proof -
  let ?w = "(world0 [])\<lparr>files := [(''/tmp/gotex-042/gotex.log'', rerun_log)]\<rparr>"
  have a: "fst (os_Open sim (path_Join [''/tmp/gotex-042'', ''gotex.log'']) ?w) = Inr rerun_log"
    by code_simp
  have b: "list_all (\<lambda>l. int (length l) < MaxScanTokenSize) (log_lines rerun_log)"
    by code_simp
  have c: "some_line_has_marker rerun_log"
    by code_simp
  have d: "fst (os_Open sim (path_Join [''/tmp/gotex-042'', ''gotex.log'']) (world0 [])) =
     Inl (SysError ''open /tmp/gotex-042/gotex.log: no such file or directory'')"
    by code_simp
  from b have b': "\<forall>l\<in>set (log_lines rerun_log). int (length l) < MaxScanTokenSize"
    by (simp add: list_all_iff)
  from needsRerun_scans_log [of sim "''/tmp/gotex-042''" ?w]
  have "fst (os_Open sim (path_Join [''/tmp/gotex-042'', ''gotex.log'']) ?w) = Inr rerun_log \<and>
      (\<forall>l\<in>set (log_lines rerun_log). int (length l) < MaxScanTokenSize) \<longrightarrow>
      fst (needsRerun sim ''/tmp/gotex-042'' ?w) = some_line_has_marker rerun_log"
    by blast
  with a b' c have e: "fst (needsRerun sim ''/tmp/gotex-042'' ?w) = True"
    by simp
  from needsRerun_scans_log [of sim "''/tmp/gotex-042''" "world0 []"]
  have "fst (os_Open sim (path_Join [''/tmp/gotex-042'', ''gotex.log'']) (world0 [])) =
       Inl (SysError ''open /tmp/gotex-042/gotex.log: no such file or directory'') \<longrightarrow>
      fst (needsRerun sim ''/tmp/gotex-042'' (world0 [])) = False"
    by blast
  with d have f: "fst (needsRerun sim ''/tmp/gotex-042'' (world0 [])) = False"
    by simp
  from a b c d e f show ?thesis by simp
qed

text \<open>
  The claim as stated fails on a log whose marker line comes after a line of 65536
  bytes: a line of the log contains the marker, and \<^verbatim>\<open>needsRerun\<close> returns false.
\<close>

theorem long_line_hides_marker_counterexample:
  "fst (os_Open sim (path_Join [''/tmp/gotex-042'', ''gotex.log''])
        ((world0 [])\<lparr>files := [(''/tmp/gotex-042/gotex.log'', long_line_log)]\<rparr>)) = Inr long_line_log \<and>
   some_line_has_marker long_line_log \<and>
   fst (needsRerun sim ''/tmp/gotex-042''
        ((world0 [])\<lparr>files := [(''/tmp/gotex-042/gotex.log'', long_line_log)]\<rparr>)) = False"
proof -
  have p: "path_Join [''/tmp/gotex-042'', ''gotex.log''] = ''/tmp/gotex-042/gotex.log''"
    by code_simp
  have a: "fst (os_Open sim (path_Join [''/tmp/gotex-042'', ''gotex.log''])
        ((world0 [])\<lparr>files := [(''/tmp/gotex-042/gotex.log'', long_line_log)]\<rparr>)) = Inr long_line_log"
    by (simp add: p sim_def read_file_def)
  have b: "some_line_has_marker long_line_log"
    by (simp add: some_line_has_marker_def long_line_log_lines strings_Contains_def)
  have "scanned_lines long_line_log = []"
    by (simp add: scanned_lines_def long_line_log_lines long_line_facts MaxScanTokenSize_def)
  with a have c: "fst (needsRerun sim ''/tmp/gotex-042''
        ((world0 [])\<lparr>files := [(''/tmp/gotex-042/gotex.log'', long_line_log)]\<rparr>)) = False"
    by (simp add: needsRerun_answer)
  from a b c show ?thesis by simp
qed

text \<open>
  \<^bold>\<open>C6.\<close> When the subprocess starts and \<^verbatim>\<open>Wait\<close> reports an error (a non-zero
  exit status), \<^verbatim>\<open>runLatex\<close> returns the error
  \<^verbatim>\<open>LaTeX error. Check <dir>/gotex.log\<close>, whatever the error of \<^verbatim>\<open>Wait\<close> was. When
  the subprocess cannot be started, \<^verbatim>\<open>runLatex\<close> returns the error of
  \<^verbatim>\<open>Start\<close> unchanged.
\<close>

theorem runLatex_failure_message:
  "(\<forall>err. fst (cmd_Start sy (the_cmd document options dir) w) = Some err \<longrightarrow>
      fst (runLatex sy document options dir w) = Some err) \<and>
   (\<forall>err. fst (cmd_Start sy (the_cmd document options dir) w) = None \<and>
          fst (cmd_Wait sy (the_cmd document options dir)
                 (snd (cmd_Start sy (the_cmd document options dir) w))) = Some err \<longrightarrow>
      fst (runLatex sy document options dir w) =
        Some (ErrorString (''LaTeX error. Check '' @ path_Join [dir, ''gotex.log''])))"
  by (auto simp: runLatex_def the_cmd_def exec_Command_def strings_NewReader_def errors_New_def
      Let_def split: prod.splits option.splits)

theorem runLatex_failure_message_witness:
  "fst (cmd_Start sim (the_cmd ''doc'' (with_defaults auto_options) ''/tmp/gotex-042'') (world0 [no_start])) =
     Some (SysError ''exec: pdflatex: executable file not found in $PATH'') \<and>
   fst (runLatex sim ''doc'' (with_defaults auto_options) ''/tmp/gotex-042'' (world0 [no_start])) =
     Some (SysError ''exec: pdflatex: executable file not found in $PATH'') \<and>
   fst (cmd_Start sim (the_cmd ''doc'' (with_defaults auto_options) ''/tmp/gotex-042'') (world0 [bad_run])) =
     None \<and>
   fst (cmd_Wait sim (the_cmd ''doc'' (with_defaults auto_options) ''/tmp/gotex-042'')
     (snd (cmd_Start sim (the_cmd ''doc'' (with_defaults auto_options) ''/tmp/gotex-042'') (world0 [bad_run])))) =
     Some (SysError ''exit status 1'') \<and>
   fst (runLatex sim ''doc'' (with_defaults auto_options) ''/tmp/gotex-042'' (world0 [bad_run])) =
     Some (ErrorString ''LaTeX error. Check /tmp/gotex-042/gotex.log'')"
proof -
  have a: "fst (cmd_Start sim (the_cmd ''doc'' (with_defaults auto_options) ''/tmp/gotex-042'') (world0 [no_start])) =
     Some (SysError ''exec: pdflatex: executable file not found in $PATH'')"
    by code_simp
  have b: "fst (cmd_Start sim (the_cmd ''doc'' (with_defaults auto_options) ''/tmp/gotex-042'') (world0 [bad_run])) =
     None"
    by code_simp
  have c: "fst (cmd_Wait sim (the_cmd ''doc'' (with_defaults auto_options) ''/tmp/gotex-042'')
     (snd (cmd_Start sim (the_cmd ''doc'' (with_defaults auto_options) ''/tmp/gotex-042'') (world0 [bad_run])))) =
     Some (SysError ''exit status 1'')"
    by code_simp
  have p: "path_Join [''/tmp/gotex-042'', ''gotex.log''] = ''/tmp/gotex-042/gotex.log''"
    by code_simp
  from runLatex_failure_message [of sim "''doc''" "with_defaults auto_options" "''/tmp/gotex-042''" "world0 [no_start]"] a
  have r1: "fst (runLatex sim ''doc'' (with_defaults auto_options) ''/tmp/gotex-042'' (world0 [no_start])) =
     Some (SysError ''exec: pdflatex: executable file not found in $PATH'')"
    by blast
  from runLatex_failure_message [of sim "''doc''" "with_defaults auto_options" "''/tmp/gotex-042''" "world0 [bad_run]"] b c
  have r2: "fst (runLatex sim ''doc'' (with_defaults auto_options) ''/tmp/gotex-042'' (world0 [bad_run])) =
     Some (ErrorString (''LaTeX error. Check '' @ path_Join [''/tmp/gotex-042'', ''gotex.log'']))"
    by blast
  from a b c r1 r2 p show ?thesis by simp
qed

text \<open>
  The claim as stated fails when the executable is not found: the failure returned is
  the operating system's, and it does not name the log file.
\<close>

theorem runLatex_start_failure_counterexample:
  "fst (cmd_Start sim (the_cmd ''doc'' (with_defaults auto_options) ''/tmp/gotex-042'') (world0 [no_start])) =
     Some (SysError ''exec: pdflatex: executable file not found in $PATH'') \<and>
   fst (runLatex sim ''doc'' (with_defaults auto_options) ''/tmp/gotex-042'' (world0 [no_start])) =
     Some (SysError ''exec: pdflatex: executable file not found in $PATH'') \<and>
   fst (runLatex sim ''doc'' (with_defaults auto_options) ''/tmp/gotex-042'' (world0 [no_start])) \<noteq>
     Some (ErrorString (''LaTeX error. Check '' @ path_Join [''/tmp/gotex-042'', ''gotex.log'']))"
  by code_simp

text \<open>
  \<^bold>\<open>C7.\<close> When \<^verbatim>\<open>Render\<close> returns the artifact, the last thing it did was to
  call \<^verbatim>\<open>os.RemoveAll\<close> on the working area, right after reading the artifact, and
  it made no other such call; what \<^verbatim>\<open>RemoveAll\<close> returned (\<open>r\<close>, an error or not)
  has no part in the result. When \<^verbatim>\<open>Render\<close> returns a failure, it has not called
  \<^verbatim>\<open>os.RemoveAll\<close> at all: the working area, if one was created, is left as the
  last compiler invocation left it.
\<close>

theorem working_area_removed_only_on_success:
  "(\<forall>output. fst (Render sy document options w) = Inr output \<longrightarrow>
      (\<exists>dir r pre. fst (ioutil_TempDir sy [] ''gotex-'' w) = Inr dir \<and>
         render_trace sy document options w =
           pre @ [EvReadFile (path_Join [dir, ''gotex.pdf'']) (Inr output), EvRemoveAll dir r] \<and>
         removals pre = 0)) \<and>
   (\<forall>err. fst (Render sy document options w) = Inl err \<longrightarrow>
      removals (render_trace sy document options w) = 0)"
proof (cases "fst (ioutil_TempDir sy [] ''gotex-'' w)")
  case (Inl err)
  from Render_failed_tempdir [OF this, of document options] show ?thesis
    by (simp add: render_trace_events)
next
  case (Inr dir)
  from Render_cases [OF this, of document options] Inr show ?thesis
    by (auto simp: render_trace_events loop_no_removal)
qed

text \<open>
  On the simulated system: a render that succeeds although the directory cannot be
  removed; a render that fails in its only pass and leaves the directory in place, with
  the log in it; a render that succeeds and leaves neither the directory nor its files.
\<close>

theorem working_area_removed_only_on_success_witness:
  "fst (Render sim ''doc'' auto_options ((world0 [good_run quiet_log])\<lparr>removable := False\<rparr>)) =
     Inr ''%PDF-1.5'' \<and>
   last (render_trace sim ''doc'' auto_options ((world0 [good_run quiet_log])\<lparr>removable := False\<rparr>)) =
     EvRemoveAll ''/tmp/gotex-042'' (Some (SysError ''unlinkat /tmp/gotex-042: permission denied'')) \<and>
   fst (Render sim ''doc'' auto_options (world0 [bad_run])) =
     Inl (ErrorString ''LaTeX error. Check /tmp/gotex-042/gotex.log'') \<and>
   removals (render_trace sim ''doc'' auto_options (world0 [bad_run])) = 0 \<and>
   ''/tmp/gotex-042'' \<in> set (dirs (snd (Render sim ''doc'' auto_options (world0 [bad_run])))) \<and>
   map fst (files (snd (Render sim ''doc'' auto_options (world0 [bad_run])))) =
     [''/tmp/gotex-042/gotex.log''] \<and>
   fst (Render sim ''doc'' auto_options (world0 [good_run quiet_log])) = Inr ''%PDF-1.5'' \<and>
   dirs (snd (Render sim ''doc'' auto_options (world0 [good_run quiet_log]))) = [''/tmp''] \<and>
   files (snd (Render sim ''doc'' auto_options (world0 [good_run quiet_log]))) = []"
proof -
  have a: "fst (Render sim ''doc'' auto_options ((world0 [good_run quiet_log])\<lparr>removable := False\<rparr>)) =
     Inr ''%PDF-1.5''"
    by code_simp
  have b: "last (render_trace sim ''doc'' auto_options ((world0 [good_run quiet_log])\<lparr>removable := False\<rparr>)) =
     EvRemoveAll ''/tmp/gotex-042'' (Some (SysError ''unlinkat /tmp/gotex-042: permission denied''))"
    by code_simp
  have c: "fst (Render sim ''doc'' auto_options (world0 [bad_run])) =
     Inl (ErrorString ''LaTeX error. Check /tmp/gotex-042/gotex.log'')"
    by code_simp
  have d: "''/tmp/gotex-042'' \<in> set (dirs (snd (Render sim ''doc'' auto_options (world0 [bad_run]))))"
    by code_simp
  have e: "map fst (files (snd (Render sim ''doc'' auto_options (world0 [bad_run])))) =
     [''/tmp/gotex-042/gotex.log'']"
    by code_simp
  have f: "fst (Render sim ''doc'' auto_options (world0 [good_run quiet_log])) = Inr ''%PDF-1.5''"
    by code_simp
  have g: "dirs (snd (Render sim ''doc'' auto_options (world0 [good_run quiet_log]))) = [''/tmp'']"
    by code_simp
  have h: "files (snd (Render sim ''doc'' auto_options (world0 [good_run quiet_log]))) = []"
    by code_simp
  from working_area_removed_only_on_success [of sim "''doc''" auto_options "world0 [bad_run]"] c
  have "removals (render_trace sim ''doc'' auto_options (world0 [bad_run])) = 0"
    by blast
  with a b c d e f g h show ?thesis by simp
qed

text \<open>
  \<^bold>\<open>C8.\<close> When \<^verbatim>\<open>ioutil.TempDir\<close> fails, \<^verbatim>\<open>Render\<close> returns that very
  error, the world is as \<^verbatim>\<open>TempDir\<close> left it, and the call of \<^verbatim>\<open>TempDir\<close> is
  the only library call made: no compiler invocation, no read of the artifact, no
  removal.
\<close>

theorem tempdir_failure_returned_at_once:
  assumes "fst (ioutil_TempDir sy [] ''gotex-'' w) = Inl err"
  shows "fst (Render sy document options w) = Inl err \<and>
         snd (Render sy document options w) = snd (ioutil_TempDir sy [] ''gotex-'' w) \<and>
         render_trace sy document options w = [EvTempDir [] ''gotex-'' (Inl err)]"
  using Render_failed_tempdir [OF assms] by (simp add: render_trace_events)

theorem tempdir_failure_returned_at_once_witness:
  "fst (ioutil_TempDir sim [] ''gotex-'' ((world0 [])\<lparr>tmpdir_ok := False\<rparr>)) =
     Inl (SysError ''mkdir /tmp/gotex-042: permission denied'') \<and>
   fst (Render sim ''doc'' auto_options ((world0 [])\<lparr>tmpdir_ok := False\<rparr>)) =
     Inl (SysError ''mkdir /tmp/gotex-042: permission denied'') \<and>
   render_trace sim ''doc'' auto_options ((world0 [])\<lparr>tmpdir_ok := False\<rparr>) =
     [EvTempDir [] ''gotex-'' (Inl (SysError ''mkdir /tmp/gotex-042: permission denied''))]"
proof -
  have h: "fst (ioutil_TempDir sim [] ''gotex-'' ((world0 [])\<lparr>tmpdir_ok := False\<rparr>)) =
     Inl (SysError ''mkdir /tmp/gotex-042: permission denied'')"
    by (simp add: sim_def world0_def)
  from tempdir_failure_returned_at_once [OF h, of "''doc''" auto_options] h
  show ?thesis by simp
qed

text \<open>
  \<^bold>\<open>C9.\<close> Every \<^verbatim>\<open>cmd.Start\<close> and every \<^verbatim>\<open>cmd.Wait\<close> of one call of
  \<^verbatim>\<open>Render\<close> is on the same command: the configured executable (\<^verbatim>\<open>pdflatex\<close>
  when none is configured) with the two arguments \<^verbatim>\<open>-jobname=gotex\<close> and
  \<^verbatim>\<open>-halt-on-error\<close> and nothing else, the working directory set to the directory
  that \<^verbatim>\<open>ioutil.TempDir\<close> returned, and the whole document as standard input.
\<close>

theorem every_invocation_same_command:
  assumes "fst (ioutil_TempDir sy [] ''gotex-'' w) = Inr dir"
  shows "\<forall>c r. EvStart c r \<in> set (render_trace sy document options w) \<or>
               EvWait c r \<in> set (render_trace sy document options w) \<longrightarrow>
           c = \<lparr>Path = (if Command options = [] then ''pdflatex'' else Command options),
                Args = [if Command options = [] then ''pdflatex'' else Command options,
                        ''-jobname=gotex'', ''-halt-on-error''],
                Dir = dir, Stdin = Some document\<rparr>"
proof -
  let ?ev = "loop_events sy document (with_defaults options) dir (max_runs options) True 0
        (snd (ioutil_TempDir sy [] ''gotex-'' w))"
  from Render_cases [OF assms, of document options]
  obtain tail where tr: "render_trace sy document options w =
      EvTempDir [] ''gotex-'' (Inr dir) # ?ev @ tail"
    and tail: "list_all (\<lambda>e. is_artifact_read e \<or> is_removal e) tail"
    by (auto simp: render_trace_events)
  have sh: "list_all (loop_event (the_cmd document (with_defaults options) dir)
      (path_Join [dir, ''gotex.log''])) ?ev"
    by (rule loop_events_shape)
  have cmd: "the_cmd document (with_defaults options) dir =
      \<lparr>Path = (if Command options = [] then ''pdflatex'' else Command options),
       Args = [if Command options = [] then ''pdflatex'' else Command options,
               ''-jobname=gotex'', ''-halt-on-error''],
       Dir = dir, Stdin = Some document\<rparr>"
    by (simp add: the_cmd_def with_defaults_def)
  show ?thesis
    unfolding cmd [symmetric] using tr tail sh
    by (auto simp: list_all_iff)
qed

theorem every_invocation_same_command_witness:
  "fst (ioutil_TempDir sim [] ''gotex-'' (world0 [good_run quiet_log, good_run quiet_log])) =
     Inr ''/tmp/gotex-042'' \<and>
   EvStart \<lparr>Path = ''pdflatex'', Args = [''pdflatex'', ''-jobname=gotex'', ''-halt-on-error''],
            Dir = ''/tmp/gotex-042'', Stdin = Some ''doc''\<rparr> None
     \<in> set (render_trace sim ''doc'' \<lparr>Command = [], Runs = 2\<rparr>
              (world0 [good_run quiet_log, good_run quiet_log])) \<and>
   invocations (render_trace sim ''doc'' \<lparr>Command = [], Runs = 2\<rparr>
              (world0 [good_run quiet_log, good_run quiet_log])) = 2"
proof -
  have h: "fst (ioutil_TempDir sim [] ''gotex-'' (world0 [good_run quiet_log, good_run quiet_log])) =
     Inr ''/tmp/gotex-042''"
    by (simp add: sim_def world0_def)
  have m: "EvStart \<lparr>Path = ''pdflatex'', Args = [''pdflatex'', ''-jobname=gotex'', ''-halt-on-error''],
            Dir = ''/tmp/gotex-042'', Stdin = Some ''doc''\<rparr> None
     \<in> set (render_trace sim ''doc'' \<lparr>Command = [], Runs = 2\<rparr>
              (world0 [good_run quiet_log, good_run quiet_log]))"
    by code_simp
  have n: "invocations (render_trace sim ''doc'' \<lparr>Command = [], Runs = 2\<rparr>
              (world0 [good_run quiet_log, good_run quiet_log])) = 2"
    by code_simp
  from every_invocation_same_command [OF h, of "''doc''" "\<lparr>Command = [], Runs = 2\<rparr>"] h m n
  show ?thesis by blast
qed

text \<open>
  \<^bold>\<open>C10.\<close> Once the working area is created, the next library call is a compiler
  invocation, whatever the options are. So every read of the artifact comes after at
  least one invocation, and a call of \<^verbatim>\<open>Render\<close> that returns the artifact has run
  the compiler at least once.
\<close>

theorem invocation_before_artifact_read:
  assumes "fst (ioutil_TempDir sy [] ''gotex-'' w) = Inr dir"
  shows "(\<exists>r rest. render_trace sy document options w =
            EvTempDir [] ''gotex-'' (Inr dir) #
            EvStart (the_cmd document (with_defaults options) dir) r # rest) \<and>
         (\<forall>pre p r post. render_trace sy document options w = pre @ EvReadFile p r # post
            \<longrightarrow> 0 < invocations pre) \<and>
         (\<forall>output. fst (Render sy document options w) = Inr output
            \<longrightarrow> 0 < invocations (render_trace sy document options w))"
proof -
  from Render_cases [OF assms, of document options]
  obtain tail where tr: "render_trace sy document options w =
      EvTempDir [] ''gotex-'' (Inr dir) #
      loop_events sy document (with_defaults options) dir (max_runs options) True 0
        (snd (ioutil_TempDir sy [] ''gotex-'' w)) @ tail"
    by (auto simp: render_trace_events)
  from loop_events_first [of True 0 "max_runs options" sy document "with_defaults options" dir]
    max_runs_pos [of options]
  obtain r rest where "loop_events sy document (with_defaults options) dir (max_runs options) True 0
        (snd (ioutil_TempDir sy [] ''gotex-'' w)) =
      EvStart (the_cmd document (with_defaults options) dir) r # rest"
    by blast
  with tr have shape: "render_trace sy document options w =
      EvTempDir [] ''gotex-'' (Inr dir) #
      EvStart (the_cmd document (with_defaults options) dir) r # (rest @ tail)"
    by simp
  have "0 < invocations pre"
    if "render_trace sy document options w = pre @ EvReadFile p r' # post" for pre p r' post
  proof (cases pre)
    case Nil
    with that shape show ?thesis by simp
  next
    case (Cons a pre')
    with that shape show ?thesis by (cases pre') auto
  qed
  with shape show ?thesis by auto
qed

theorem invocation_before_artifact_read_witness:
  "fst (ioutil_TempDir sim [] ''gotex-'' (world0 [good_run quiet_log])) = Inr ''/tmp/gotex-042'' \<and>
   fst (Render sim ''doc'' auto_options (world0 [good_run quiet_log])) = Inr ''%PDF-1.5'' \<and>
   0 < invocations (render_trace sim ''doc'' auto_options (world0 [good_run quiet_log]))"
proof -
  have h: "fst (ioutil_TempDir sim [] ''gotex-'' (world0 [good_run quiet_log])) = Inr ''/tmp/gotex-042''"
    by (simp add: sim_def world0_def)
  have r: "fst (Render sim ''doc'' auto_options (world0 [good_run quiet_log])) = Inr ''%PDF-1.5''"
    by code_simp
  from invocation_before_artifact_read [OF h, of "''doc''" auto_options] h r
  show ?thesis by blast
qed

end
